theory Spec2Isabelle
  imports Complex_Main "HOL-Library.Sublist" "HOL-Library.Char_ord" "HOL-Library.List_Lexorder"
begin

section \<open>Python values, JSON documents and errors\<close>

text \<open>
  The functions of \<open>eman2/convert/convert.py\<close> read JSON documents with Python's
  \<open>json.load\<close>. A loaded document is a value of the type \<open>json\<close>: \<open>None\<close>,
  a bool, an int, a float (read as a real number), a str, a list or a dict. A dict is the
  list of its items in the order of the document, with distinct keys; a str is the list
  of its characters, one \<open>char\<close> each for the characters below 128. An exception of the
  source is a value of the type \<open>error\<close>, and a function that may raise returns
  \<open>error + 'a\<close>.
\<close>

datatype error = KeyError | IndexError | TypeError | ValueError | AttributeError
  | FileNotFoundError | LinAlgError | Exception string

datatype json = JNull | JBool bool | JInt int | JFloat real | JStr string
  | JList "json list" | JDict "(string \<times> json) list"

definition and_then :: "error + 'a \<Rightarrow> ('a \<Rightarrow> error + 'b) \<Rightarrow> error + 'b" where
  "and_then m f = (case m of Inl e \<Rightarrow> Inl e | Inr x \<Rightarrow> f x)"

text \<open>The truth value of a Python object, as \<open>if obj:\<close> tests it.\<close>

fun truthy :: "json \<Rightarrow> bool" where
  "truthy JNull = False"
| "truthy (JBool b) = b"
| "truthy (JInt i) = (i \<noteq> 0)"
| "truthy (JFloat r) = (r \<noteq> 0)"
| "truthy (JStr s) = (s \<noteq> [])"
| "truthy (JList xs) = (xs \<noteq> [])"
| "truthy (JDict kvs) = (kvs \<noteq> [])"

text \<open>\<open>key in obj\<close> for a str key: dict membership, list membership, substring test.\<close>

fun contains :: "json \<Rightarrow> string \<Rightarrow> error + bool" where
  "contains (JDict kvs) key = Inr (key \<in> fst ` set kvs)"
| "contains (JList xs) key = Inr (JStr key \<in> set xs)"
| "contains (JStr s) key = Inr (sublist key s)"
| "contains _ key = Inl TypeError"

text \<open>\<open>obj[key]\<close> for a str key.\<close>

fun getitem :: "json \<Rightarrow> string \<Rightarrow> error + json" where
  "getitem (JDict kvs) key = (case map_of kvs key of None \<Rightarrow> Inl KeyError | Some v \<Rightarrow> Inr v)"
| "getitem _ key = Inl TypeError"

text \<open>\<open>obj[i]\<close> for a constant index \<open>i \<ge> 0\<close>.\<close>

fun getindex :: "json \<Rightarrow> nat \<Rightarrow> error + json" where
  "getindex (JList xs) i = (if i < length xs then Inr (xs ! i) else Inl IndexError)"
| "getindex (JStr s) i = (if i < length s then Inr (JStr [s ! i]) else Inl IndexError)"
| "getindex (JDict kvs) i = Inl KeyError"
| "getindex _ i = Inl TypeError"

text \<open>
  \<open>float(obj)\<close>. The grammar of a float literal in a str is Python's own: the parameter
  \<open>parseFloat\<close> stands for it.
\<close>

fun py_float :: "(string \<Rightarrow> real option) \<Rightarrow> json \<Rightarrow> error + real" where
  "py_float parseFloat (JInt i) = Inr (of_int i)"
| "py_float parseFloat (JFloat r) = Inr r"
| "py_float parseFloat (JBool b) = Inr (if b then 1 else 0)"
| "py_float parseFloat (JStr s) =
     (case parseFloat s of None \<Rightarrow> Inl ValueError | Some r \<Rightarrow> Inr r)"
| "py_float parseFloat _ = Inl TypeError"

text \<open>
  The files: a path that exists maps to what \<open>json.load\<close> makes of its content, a
  document or the error it raises.
\<close>

type_synonym files = "string \<rightharpoonup> (error + json)"

definition exists_file :: "files \<Rightarrow> string \<Rightarrow> bool" where
  "exists_file fs path = (fs path \<noteq> None)"

definition loadJson :: "files \<Rightarrow> string \<Rightarrow> error + json" where
  "loadJson fs jsonFn = (case fs jsonFn of None \<Rightarrow> Inl FileNotFoundError | Some r \<Rightarrow> r)"

section \<open>CTF phase shift (convert.py, calculatePhaseShift)\<close>

text \<open>
  Python floats are read as real numbers: the branch structure of the code is exact, and
  \<open>numpy.arcsin\<close>, \<open>numpy.pi\<close> and \<open>numpy.rad2deg\<close> are the real arc sine,
  \<open>pi\<close> and the multiplication by \<open>180 / pi\<close>.
\<close>

definition rad2deg :: "real \<Rightarrow> real" where
  "rad2deg x = x * (180 / pi)"

definition deg2rad :: "real \<Rightarrow> real" where
  "deg2rad x = x * (pi / 180)"

definition calculatePhaseShift :: "real \<Rightarrow> real" where
  "calculatePhaseShift ampcont =
     (let PhaseShift =
        (if -100 < ampcont \<and> ampcont \<le> 100 then arcsin (ampcont / 100)
         else if ampcont > 100 then pi - arcsin (2 - ampcont / 100)
         else - pi - arcsin (-2 - ampcont / 100))
      in rad2deg PhaseShift)"

section \<open>Reading a CTF model (convert.py, readCTFModel and setWrongDefocus)\<close>

text \<open>
  The host's CTF model holds the values its setters were given. \<open>setStandardDefocus\<close>
  is a method of the host's class and a parameter here, as are \<open>removeExt\<close> of the
  host's utilities and the float grammar.
\<close>

record ctfModel =
  defocusU :: "real option"
  defocusV :: "real option"
  defocusAngle :: "real option"
  phaseShift :: "real option"
  psdFile :: "string option"

definition setWrongDefocus :: "ctfModel \<Rightarrow> ctfModel" where
  "setWrongDefocus ctfModel =
     ctfModel\<lparr>defocusU := Some (-999), defocusV := Some (-1), defocusAngle := Some (-999)\<rparr>"

definition defocusTriple :: "ctfModel \<Rightarrow> real option \<times> real option \<times> real option" where
  "defocusTriple ctfModel = (defocusU ctfModel, defocusV ctfModel, defocusAngle ctfModel)"

text \<open>The record \<open>keyPos\<close> chosen by lines 68 to 73, with the model as those lines leave it.\<close>

definition selectKeyPos :: "json \<Rightarrow> ctfModel \<Rightarrow> error + (json \<times> ctfModel)" where
  "selectKeyPos jsonDict ctfModel =
     and_then (contains jsonDict ''ctf_frame'') (\<lambda>hasFrame.
       if hasFrame then
         and_then (getitem jsonDict ''ctf_frame'') (\<lambda>v.
         and_then (getindex v 1) (\<lambda>keyPos. Inr (keyPos, ctfModel)))
       else
         and_then (contains jsonDict ''ctf'') (\<lambda>hasCtf.
           if hasCtf then
             and_then (getitem jsonDict ''ctf'') (\<lambda>v.
             and_then (getindex v 0) (\<lambda>keyPos. Inr (keyPos, ctfModel)))
           else Inr (JNull, setWrongDefocus ctfModel)))"

definition floatField :: "(string \<Rightarrow> real option) \<Rightarrow> json \<Rightarrow> string \<Rightarrow> error + real" where
  "floatField parseFloat keyPos key = and_then (getitem keyPos key) (py_float parseFloat)"

text \<open>Lines 85 to 90: the PSD image is recorded when the document names one and it exists.\<close>

definition setPsdFileIfExists ::
  "(string \<Rightarrow> string) \<Rightarrow> files \<Rightarrow> string \<Rightarrow> bool \<Rightarrow> ctfModel \<Rightarrow> ctfModel" where
  "setPsdFileIfExists removeExt fs filename hasPsd ctfModel =
     (if hasPsd then
        (let fnBase = removeExt filename @ ''_jsonimg'';
             psdFile = ''1@'' @ fnBase @ ''.hdf''
         in if exists_file fs psdFile then ctfModel\<lparr>psdFile := Some psdFile\<rparr> else ctfModel)
      else ctfModel)"

definition readCTFModel ::
  "(real \<Rightarrow> real \<Rightarrow> real \<Rightarrow> ctfModel \<Rightarrow> ctfModel) \<Rightarrow> (string \<Rightarrow> real option) \<Rightarrow>
   (string \<Rightarrow> string) \<Rightarrow> files \<Rightarrow> ctfModel \<Rightarrow> string \<Rightarrow> error + ctfModel" where
  "readCTFModel setStandardDefocus parseFloat removeExt fs ctfModel filename =
     and_then (loadJson fs filename) (\<lambda>jsonDict.
     and_then (selectKeyPos jsonDict ctfModel) (\<lambda>(keyPos, ctfModel1).
     and_then
       (if truthy keyPos then
          and_then (floatField parseFloat keyPos ''defocus'') (\<lambda>defocus.
          and_then (floatField parseFloat keyPos ''dfang'') (\<lambda>defocusAngle.
          and_then (floatField parseFloat keyPos ''dfdiff'') (\<lambda>dfdiff.
          and_then (floatField parseFloat keyPos ''ampcont'') (\<lambda>ampcont.
            let defocusU = 10000 * defocus + 5000 * dfdiff;
                defocusV = 20000 * defocus - defocusU;
                ctfPhaseShift = calculatePhaseShift ampcont;
                ctfModel2 = setStandardDefocus defocusU defocusV defocusAngle ctfModel1
            in and_then (contains jsonDict ''ctf_im2d'') (\<lambda>hasPsd.
                 Inr (ctfPhaseShift,
                      setPsdFileIfExists removeExt fs filename hasPsd ctfModel2))))))
        else Inr (0, ctfModel1))
       (\<lambda>(ctfPhaseShift, ctfModel3). Inr (ctfModel3\<lparr>phaseShift := Some ctfPhaseShift\<rparr>))))"

section \<open>Stack indices of a written particle set (convert.py, writeSetOfParticles and convertReferences)\<close>

text \<open>
  A particle is read through its object dictionary: the pair of its \<open>_filename\<close> and
  its \<open>_index\<close>, in the order the set is iterated. The loop keeps the current file in
  \<open>fileName\<close> and the offset in \<open>a\<close>; what it sends to the converter process is,
  for each particle, the file name and the index \<open>int(_index - a)\<close>.
\<close>

fun writeIndices :: "string \<Rightarrow> int \<Rightarrow> (string \<times> int) list \<Rightarrow> (string \<times> int) list" where
  "writeIndices fileName a [] = []"
| "writeIndices fileName a ((fn, idx) # parts) =
     (if fileName \<noteq> fn
      then (let a' = (if idx = 0 then 0 else 1)
            in (fn, idx - a') # writeIndices fn a' parts)
      else (fn, idx - a) # writeIndices fileName a parts)"

text \<open>
  \<open>writeSetOfParticles\<close> links the files when the first item's extension \<open>ext\<close> is
  \<open>hdf\<close> and writes no index then; otherwise it runs the loop from
  \<open>fileName = ""\<close> and \<open>a = 0\<close>, as \<open>convertReferences\<close> always does.
\<close>

definition writeSetOfParticles :: "string \<Rightarrow> (string \<times> int) list \<Rightarrow> (string \<times> int) list" where
  "writeSetOfParticles ext partSet = (if ext = ''hdf'' then [] else writeIndices '''' 0 partSet)"

definition convertReferences :: "(string \<times> int) list \<Rightarrow> (string \<times> int) list" where
  "convertReferences refSet = writeIndices '''' 0 refSet"

text \<open>A sequence is grouped when the occurrences of each of its values are adjacent.\<close>

fun grouped :: "'a list \<Rightarrow> bool" where
  "grouped [] = True"
| "grouped (x # xs) = (x \<notin> set (dropWhile (\<lambda>y. y = x) xs) \<and> grouped xs)"

section \<open>Particle list files (convert.py, iterLstFile)\<close>

text \<open>
  \<open>str.split()\<close> with no argument cuts a line at runs of whitespace and drops empty
  words. The whitespace of a str, among the characters below 128, is the tab, the line
  feed, the vertical tab, the form feed, the carriage return, the four separators 28 to 31
  and the space.
\<close>

definition is_space :: "char \<Rightarrow> bool" where
  "is_space c = ((of_char c :: nat) \<in> {9, 10, 11, 12, 13, 28, 29, 30, 31, 32})"

fun split_from :: "string \<Rightarrow> string \<Rightarrow> string list" where
  "split_from cur [] = (if cur = [] then [] else [cur])"
| "split_from cur (c # cs) =
     (if is_space c then (if cur = [] then split_from [] cs else cur # split_from [] cs)
      else split_from (cur @ [c]) cs)"

definition py_split :: "string \<Rightarrow> string list" where
  "py_split line = split_from [] line"

text \<open>\<open>words[i]\<close> on the list of words.\<close>

definition word_at :: "string list \<Rightarrow> nat \<Rightarrow> error + string" where
  "word_at ws i = (if i < length ws then Inr (ws ! i) else Inl IndexError)"

text \<open>
  \<open>int(word)\<close> in base 10 on a word without whitespace: an optional sign, then decimal
  digits, where single underscores may stand between digits. The digits are the ten
  digits below 128, and a word of any length is read.
\<close>

definition is_digit :: "char \<Rightarrow> bool" where
  "is_digit c = (48 \<le> (of_char c :: nat) \<and> (of_char c :: nat) \<le> 57)"

definition digit_val :: "char \<Rightarrow> nat" where
  "digit_val c = of_char c - 48"

fun int_digits :: "nat \<Rightarrow> bool \<Rightarrow> string \<Rightarrow> nat option" where
  "int_digits acc prev [] = (if prev then Some acc else None)"
| "int_digits acc prev (c # cs) =
     (if is_digit c then int_digits (10 * acc + digit_val c) True cs
      else if c = CHR ''_'' \<and> prev then int_digits acc False cs
      else None)"

definition py_int :: "string \<Rightarrow> error + int" where
  "py_int w =
     (case w of
        c # ds \<Rightarrow>
          (if c = CHR ''-'' then
             (case int_digits 0 False ds of None \<Rightarrow> Inl ValueError | Some n \<Rightarrow> Inr (- int n))
           else if c = CHR ''+'' then
             (case int_digits 0 False ds of None \<Rightarrow> Inl ValueError | Some n \<Rightarrow> Inr (int n))
           else
             (case int_digits 0 False w of None \<Rightarrow> Inl ValueError | Some n \<Rightarrow> Inr (int n)))
      | [] \<Rightarrow> Inl ValueError)"

text \<open>
  The generator over the lines of the file, each with its line end: the pairs it yields,
  and the exception that ends it early, if any.
\<close>

fun iterLstFile :: "string list \<Rightarrow> (int \<times> string) list \<times> error option" where
  "iterLstFile [] = ([], None)"
| "iterLstFile (line # f) =
     (if CHR ''#'' \<notin> set line then
        (case word_at (py_split line) 0 of
           Inl e \<Rightarrow> ([], Some e)
         | Inr w \<Rightarrow>
            (case py_int w of
               Inl e \<Rightarrow> ([], Some e)
             | Inr n \<Rightarrow>
                (case word_at (py_split line) 1 of
                   Inl e \<Rightarrow> ([], Some e)
                 | Inr filename \<Rightarrow>
                    (let (rest, e) = iterLstFile f in ((n + 1, filename) # rest, e)))))
      else iterLstFile f)"

text \<open>
  The lines of a well-formed list file: a comment, which holds the character \<open>#\<close>, or
  an entry \<open><N> <path>\<close> with \<open>N\<close> in decimal digits, one space, the path and the
  line feed.
\<close>

definition digit_char :: "nat \<Rightarrow> char" where
  "digit_char d = char_of (48 + d)"

fun decimal :: "nat \<Rightarrow> string" where
  "decimal n = (if n < 10 then [digit_char n] else decimal (n div 10) @ [digit_char (n mod 10)])"

datatype lst_line = Comment string | Entry nat string

fun render_line :: "lst_line \<Rightarrow> string" where
  "render_line (Comment s) = s"
| "render_line (Entry n path) = decimal n @ '' '' @ path @ [CHR 0x0A]"

fun well_formed :: "lst_line \<Rightarrow> bool" where
  "well_formed (Comment s) = (CHR ''#'' \<in> set s)"
| "well_formed (Entry n path) =
     (path \<noteq> [] \<and> CHR ''#'' \<notin> set path \<and> list_all (\<lambda>c. \<not> is_space c) path)"

fun exposed :: "lst_line \<Rightarrow> (int \<times> string) list" where
  "exposed (Comment s) = []"
| "exposed (Entry n path) = [(int n + 1, path)]"

section \<open>Particle parameters of the last iteration (convert.py, getLastParticlesParams)\<close>

text \<open>
  \<open>re.search(r'(\d+)\)$', key)\<close>: the key ends, or ends before one last line feed, with
  a closing parenthesis, and the group is the longest run of digits just before it, which
  must not be empty. \<open>int\<close> reads the digits in base 10.
\<close>

definition dec_val :: "string \<Rightarrow> nat" where
  "dec_val ds = foldl (\<lambda>acc c. 10 * acc + digit_val c) 0 ds"

definition matchIndex :: "string \<Rightarrow> int option" where
  "matchIndex key =
     (let k = (if key \<noteq> [] \<and> last key = CHR 0x0A then butlast key else key) in
      if k \<noteq> [] \<and> last k = CHR '')'' then
        (let ds = rev (takeWhile is_digit (rev (butlast k)))
         in if ds = [] then None else Some (int (dec_val ds)))
      else None)"

text \<open>\<open>obj.items()\<close> and \<open>obj.get(key, default)\<close>: only a dict has these methods.\<close>

fun dict_items :: "json \<Rightarrow> error + (string \<times> json) list" where
  "dict_items (JDict kvs) = Inr kvs"
| "dict_items _ = Inl AttributeError"

fun dict_get :: "json \<Rightarrow> string \<Rightarrow> json \<Rightarrow> error + json" where
  "dict_get (JDict kvs) key dflt =
     Inr (case map_of kvs key of None \<Rightarrow> dflt | Some v \<Rightarrow> v)"
| "dict_get _ key dflt = Inl AttributeError"

record particleParams =
  coverage :: json
  score :: json
  alignMatrix :: json

text \<open>Lines 487 to 496: the parameters kept for one entry, if any.\<close>

definition customParticleParams :: "json \<Rightarrow> error + particleParams option" where
  "customParticleParams values =
     and_then (dict_get values ''coverage'' JNull) (\<lambda>cov.
     and_then (dict_get values ''score'' JNull) (\<lambda>sc.
     and_then (dict_get values ''xform.align3d'' (JDict [])) (\<lambda>xform.
     and_then (dict_get xform ''matrix'' JNull) (\<lambda>matrix.
       if truthy cov \<and> truthy sc \<and> truthy matrix
       then Inr (Some \<lparr>coverage = cov, score = sc, alignMatrix = matrix\<rparr>)
       else Inr None))))"

fun collectParams ::
  "(string \<times> json) list \<Rightarrow> (int \<rightharpoonup> particleParams) \<Rightarrow> error + (int \<rightharpoonup> particleParams)" where
  "collectParams [] output = Inr output"
| "collectParams ((key, values) # items) output =
     (case matchIndex key of
        None \<Rightarrow> collectParams items output
      | Some particleIndex \<Rightarrow>
         (case customParticleParams values of
            Inl e \<Rightarrow> Inl e
          | Inr None \<Rightarrow> collectParams items output
          | Inr (Some params) \<Rightarrow> collectParams items (output(particleIndex \<mapsto> params))))"

text \<open>
  \<open>particleParamsPaths\<close> is what \<open>glob\<close> finds in the directory; the last path in the
  order of str is read.
\<close>

definition getLastParticlesParams ::
  "files \<Rightarrow> string list \<Rightarrow> error + (int \<rightharpoonup> particleParams)" where
  "getLastParticlesParams fs particleParamsPaths =
     (if particleParamsPaths = [] then Inl (Exception ''Particle params files not found'')
      else
        (let lastParticleParamsPath = last (sort particleParamsPaths) in
         and_then (loadJson fs lastParticleParamsPath) (\<lambda>particlesParams.
         and_then (dict_items particlesParams) (\<lambda>items. collectParams items Map.empty))))"

text \<open>
  The entries of the claim: the value of \<open>coverage\<close> or of \<open>score\<close> is 0, 0.0 or
  missing, or the matrix of \<open>xform.align3d\<close> is missing or empty. An entry is a JSON
  object whose \<open>xform.align3d\<close>, when present, is a JSON object.
\<close>

definition zero_or_missing :: "json option \<Rightarrow> bool" where
  "zero_or_missing v = (v = None \<or> v = Some (JInt 0) \<or> v = Some (JFloat 0))"

fun missing_or_empty_matrix :: "json option \<Rightarrow> bool" where
  "missing_or_empty_matrix None = True"
| "missing_or_empty_matrix (Some (JDict xform)) =
     (map_of xform ''matrix'' = None \<or> map_of xform ''matrix'' = Some (JList []))"
| "missing_or_empty_matrix (Some _) = False"

fun object_or_missing :: "json option \<Rightarrow> bool" where
  "object_or_missing None = True"
| "object_or_missing (Some (JDict xform)) = True"
| "object_or_missing (Some _) = False"

fun zero_or_missing_entry :: "json \<Rightarrow> bool" where
  "zero_or_missing_entry (JDict kvs) =
     (object_or_missing (map_of kvs ''xform.align3d'')
      \<and> (zero_or_missing (map_of kvs ''coverage'')
         \<or> zero_or_missing (map_of kvs ''score'')
         \<or> missing_or_empty_matrix (map_of kvs ''xform.align3d'')))"
| "zero_or_missing_entry _ = False"

section \<open>Converting the images of a 2D refinement (protocol_refine2d_bispec.py, convertImagesStep)\<close>

text \<open>
  The step acts on the world through the host and through external programs: each such
  call is an action, and \<open>run\<close> tells whether an action raises. What is returned is the
  protocol, whose \<open>skipctf\<close> the step may set, the actions begun in order, and the
  exception that ended the step, if any.
\<close>

datatype action = MakePath string | WriteSetOfParticles | RunJob string
  | CreateLink string string

text \<open>
  The protocol that made the bispectra: the size of its output set
  \<open>outputParticles_flip_bispec\<close> when it has one, the bispectra files its directory
  holds, in sorted order, and its list file.
\<close>

record bispecProtocol =
  outputParticles_flip_bispec :: "nat option"
  bispecFiles :: "string list"
  partSetFlipBispec :: string

text \<open>
  \<open>inputBispec\<close> is what the pointer parameter points to, \<open>None\<close> when it points to
  nothing; \<open>partSetSize\<close> is the size of the input particle set. The test
  \<open>self.inputBispec is not None\<close> of the step is on the pointer object itself, which
  every protocol has, so it holds.
\<close>

record protocol =
  useInputBispec :: bool
  inputBispec :: "bispecProtocol option"
  skipctf :: bool
  partSetSize :: nat

fun perform :: "(action \<Rightarrow> error option) \<Rightarrow> action list \<Rightarrow> action list \<times> error option" where
  "perform run [] = ([], None)"
| "perform run (a # acts) =
     (case run a of
        Some e \<Rightarrow> ([a], Some e)
      | None \<Rightarrow> (let (done, e) = perform run acts in (a # done, e)))"

text \<open>
  \<open>linkName\<close> is the path of the link made for a bispectra file, in the directory of
  this protocol, and \<open>partBispecSet\<close> the path of the link to the list file.
\<close>

definition convertImagesStep ::
  "(action \<Rightarrow> error option) \<Rightarrow> (string \<Rightarrow> string) \<Rightarrow> string \<Rightarrow> protocol \<Rightarrow>
   protocol \<times> action list \<times> error option" where
  "convertImagesStep run linkName partBispecSet self =
     (let self1 = (if useInputBispec self then self\<lparr>skipctf := True\<rparr> else self);
          (done1, e1) = perform run
             ([MakePath ''particles'', WriteSetOfParticles]
              @ (if \<not> skipctf self1 then [RunJob ''e2ctf.py''] else [])
              @ [RunJob ''e2buildsets.py''])
      in case e1 of
           Some e \<Rightarrow> (self1, done1, Some e)
         | None \<Rightarrow>
            (if useInputBispec self1 then
               (case inputBispec self1 of
                  None \<Rightarrow> (self1, done1, Some AttributeError)
                | Some prot \<Rightarrow>
                   (case outputParticles_flip_bispec prot of
                      None \<Rightarrow> (self1, done1, Some AttributeError)
                    | Some bispecSize \<Rightarrow>
                       (if \<not> bispecSize = partSetSize self1 then
                          (self1, done1,
                           Some (Exception ''Input particles and bispectra sets have different size!''))
                        else
                          (let (done2, e2) = perform run
                             (map (\<lambda>fn. CreateLink fn (linkName fn)) (bispecFiles prot)
                              @ [CreateLink (partSetFlipBispec prot) partBispecSet])
                           in (self1, done1 @ done2, e2)))))
             else (self1, done1, None)))"

fun is_link :: "action \<Rightarrow> bool" where
  "is_link (CreateLink src dst) = True"
| "is_link _ = False"

section \<open>Reading 2D boxes (convert.py, readCoordinates)\<close>









section \<open>Geometry of a transformation matrix (convert.py, geometryFromMatrix and matrixFromGeometry)\<close>

text \<open>
  The matrix type and the functions the code imports are parameters:
  \<open>numpy.linalg.inv\<close>, which raises on a singular matrix, and
  \<open>translation_from_matrix\<close>, \<open>euler_from_matrix\<close> and \<open>euler_matrix\<close> of the
  host's \<open>transformations\<close> module, the last two with their axes argument. The assignment
  \<open>M[:3, 3] = v\<close> is the parameter \<open>set_translation\<close>, which raises when \<open>v\<close> does
  not fit the three places. A numpy vector is the list of its components; the unary minus,
  \<open>numpy.rad2deg\<close> and \<open>numpy.deg2rad\<close> work on each component.
\<close>

definition geometryFromMatrix ::
  "('mat \<Rightarrow> error + 'mat) \<Rightarrow> ('mat \<Rightarrow> real list) \<Rightarrow> ('mat \<Rightarrow> string \<Rightarrow> real list) \<Rightarrow>
   'mat \<Rightarrow> bool \<Rightarrow> error + (real list \<times> real list)" where
  "geometryFromMatrix linalg_inv translation_from_matrix euler_from_matrix matrix inverseTransform =
     and_then
       (if inverseTransform then
          and_then (linalg_inv matrix) (\<lambda>matrix1.
            Inr (matrix1, map uminus (translation_from_matrix matrix1)))
        else Inr (matrix, translation_from_matrix matrix))
       (\<lambda>(matrix1, shifts).
          let angles = map uminus (map rad2deg (euler_from_matrix matrix1 ''szyz''))
          in Inr (shifts, angles))"

text \<open>\<open>a[i]\<close> on a vector.\<close>

definition item_at :: "real list \<Rightarrow> nat \<Rightarrow> error + real" where
  "item_at a i = (if i < length a then Inr (a ! i) else Inl IndexError)"

definition matrixFromGeometry ::
  "(real \<Rightarrow> real \<Rightarrow> real \<Rightarrow> string \<Rightarrow> 'mat) \<Rightarrow> ('mat \<Rightarrow> real list \<Rightarrow> error + 'mat) \<Rightarrow>
   ('mat \<Rightarrow> error + 'mat) \<Rightarrow> real list \<Rightarrow> real list \<Rightarrow> bool \<Rightarrow> error + 'mat" where
  "matrixFromGeometry euler_matrix set_translation linalg_inv shifts angles inverseTransform =
     (let radAngles = map uminus (map deg2rad angles) in
      and_then (item_at radAngles 0) (\<lambda>a0.
      and_then (item_at radAngles 1) (\<lambda>a1.
      and_then (item_at radAngles 2) (\<lambda>a2.
        let M = euler_matrix a0 a1 a2 ''szyz'' in
        if inverseTransform then
          and_then (set_translation M (map uminus (take 3 shifts))) linalg_inv
        else set_translation M (take 3 shifts)))))"

section \<open>Sample inputs\<close>

text \<open>
  A CTF model with no value set, and a stand-in for the host's \<open>setStandardDefocus\<close>
  that stores the three values it is given.
\<close>

definition emptyCtfModel :: ctfModel where
  "emptyCtfModel =
     \<lparr>defocusU = None, defocusV = None, defocusAngle = None, phaseShift = None, psdFile = None\<rparr>"

definition storeDefocus :: "real \<Rightarrow> real \<Rightarrow> real \<Rightarrow> ctfModel \<Rightarrow> ctfModel" where
  "storeDefocus u v a ctfModel =
     ctfModel\<lparr>defocusU := Some u, defocusV := Some v, defocusAngle := Some a\<rparr>"

definition ctfRecord :: json where
  "ctfRecord = JDict [(''defocus'', JFloat 1), (''dfang'', JFloat 30),
     (''dfdiff'', JFloat (2 / 10)), (''ampcont'', JInt 10)]"

definition sampleParticles :: "(string \<times> int) list" where
  "sampleParticles =
     [(''a.mrcs'', 1), (''a.mrcs'', 2), (''b.mrc'', 0), (''c.mrcs'', 1), (''c.mrcs'', 3)]"

definition sampleLst :: "lst_line list" where
  "sampleLst = [Comment (''#LSX'' @ [CHR 0x0A]), Entry 0 ''particles/a.hdf'', Entry 41 ''particles/b.hdf'']"

definition alignedEntry :: json where
  "alignedEntry = JDict [(''coverage'', JFloat 1), (''score'', JFloat 2),
     (''xform.align3d'', JDict [(''matrix'', JList [JFloat 1, JFloat 0, JFloat 0])])]"

definition zeroScoreEntry :: json where
  "zeroScoreEntry = JDict [(''coverage'', JFloat 1), (''score'', JFloat 0),
     (''xform.align3d'', JDict [(''matrix'', JList [JFloat 1, JFloat 0, JFloat 0])])]"

definition paramsFiles :: files where
  "paramsFiles = [''out/particle_parms_02.json'' \<mapsto>
     Inr (JDict [(''('p.hdf', 0)'', alignedEntry), (''('p.hdf', 1)'', zeroScoreEntry)])]"

definition mismatchedProtocol :: protocol where
  "mismatchedProtocol =
     \<lparr>useInputBispec = True,
      inputBispec = Some \<lparr>outputParticles_flip_bispec = Some 90,
                          bispecFiles = [''particles/mic1__ctf_flip_bispec.hdf''],
                          partSetFlipBispec = ''sets/inputSet__ctf_flip_bispec.lst''\<rparr>,
      skipctf = False,
      partSetSize = 100\<rparr>"




text \<open>
  Rigid transformations as lists of four rows, with exact stand-ins for the functions of
  the libraries on them: the translation is the last column; the inverse of a rotation
  \<open>R\<close> with a translation \<open>t\<close> is the transposed rotation with the translation
  \<open>- R\<^sup>T t\<close>; the assignment of a translation takes three values; a turn about z by
  the angle \<open>a\<close> has the \<open>szyz\<close> angles \<open>(a, 0, 0)\<close>, and these angles give the turn.
  \<open>quarterTurn\<close> turns by 90 degrees about z and translates by (1, 0, 0).
\<close>

definition lastColumn :: "real list list \<Rightarrow> real list" where
  "lastColumn m = [m ! 0 ! 3, m ! 1 ! 3, m ! 2 ! 3]"

definition rigidInverse :: "real list list \<Rightarrow> error + real list list" where
  "rigidInverse m =
     Inr [[m ! 0 ! 0, m ! 1 ! 0, m ! 2 ! 0,
             - (m ! 0 ! 0 * m ! 0 ! 3 + m ! 1 ! 0 * m ! 1 ! 3 + m ! 2 ! 0 * m ! 2 ! 3)],
          [m ! 0 ! 1, m ! 1 ! 1, m ! 2 ! 1,
             - (m ! 0 ! 1 * m ! 0 ! 3 + m ! 1 ! 1 * m ! 1 ! 3 + m ! 2 ! 1 * m ! 2 ! 3)],
          [m ! 0 ! 2, m ! 1 ! 2, m ! 2 ! 2,
             - (m ! 0 ! 2 * m ! 0 ! 3 + m ! 1 ! 2 * m ! 1 ! 3 + m ! 2 ! 2 * m ! 2 ! 3)],
          [0, 0, 0, 1]]"

definition setLastColumn :: "real list list \<Rightarrow> real list \<Rightarrow> error + real list list" where
  "setLastColumn m v =
     (if length v = 3 then
        Inr [(m ! 0)[3 := v ! 0], (m ! 1)[3 := v ! 1], (m ! 2)[3 := v ! 2], m ! 3]
      else Inl ValueError)"

definition zTurnMatrix :: "real \<Rightarrow> real \<Rightarrow> real \<Rightarrow> string \<Rightarrow> real list list" where
  "zTurnMatrix a0 a1 a2 axes =
     [[cos a0, - sin a0, 0, 0], [sin a0, cos a0, 0, 0], [0, 0, 1, 0], [0, 0, 0, 1]]"

definition quarterTurnAngles :: "real list list \<Rightarrow> string \<Rightarrow> real list" where
  "quarterTurnAngles m axes = (if m ! 1 ! 0 > 0 then [pi / 2, 0, 0] else [- (pi / 2), 0, 0])"

definition quarterTurn :: "real list list" where
  "quarterTurn = [[0, -1, 0, 1], [1, 0, 0, 0], [0, 0, 1, 0], [0, 0, 0, 1]]"

definition quarterTurnBack :: "real list list" where
  "quarterTurnBack = [[0, 1, 0, 0], [-1, 0, 0, 1], [0, 0, 1, 0], [0, 0, 0, 1]]"

definition matrixProduct :: "real list list \<Rightarrow> real list list \<Rightarrow> real list list" where
  "matrixProduct a b =
     map (\<lambda>row. map (\<lambda>j. row ! 0 * b ! 0 ! j + row ! 1 * b ! 1 ! j + row ! 2 * b ! 2 ! j
                            + row ! 3 * b ! 3 ! j) [0, 1, 2, 3]) a"

section \<open>Theorems\<close>

subsection \<open>The CTF phase shift\<close>

lemma arcsin_half: "arcsin (1 / 2) = pi / 6"
proof -
  have "arcsin (sin (pi / 6)) = pi / 6"
    by (rule arcsin_sin) (use pi_gt_zero in auto)
  then show ?thesis
    by (simp add: sin_30)
qed

lemma arcsin_minus_half: "arcsin (- (1 / 2)) = - (pi / 6)"
  using arcsin_minus [of "1 / 2"] arcsin_half by simp

text \<open>
  C2. For every real \<open>ampcont\<close> the phase shift follows one of three branches:
  \<open>arcsin (ampcont / 100)\<close> when \<open>-100 < ampcont \<le> 100\<close>,
  \<open>pi - arcsin (2 - ampcont / 100)\<close> when \<open>ampcont > 100\<close>, and
  \<open>- pi - arcsin (-2 - ampcont / 100)\<close> otherwise, that is when \<open>ampcont \<le> -100\<close>;
  each is converted from radians to degrees. At the boundary values -100, 0, 100, 150 and
  -150 the results are -90, 0, 90, 150 and -150 degrees.
\<close>

theorem calculatePhaseShift_branches:
  "(-100 < ampcont \<and> ampcont \<le> 100 \<longrightarrow>
      calculatePhaseShift ampcont = rad2deg (arcsin (ampcont / 100)))
   \<and> (ampcont > 100 \<longrightarrow>
      calculatePhaseShift ampcont = rad2deg (pi - arcsin (2 - ampcont / 100)))
   \<and> (ampcont \<le> -100 \<longrightarrow>
      calculatePhaseShift ampcont = rad2deg (- pi - arcsin (-2 - ampcont / 100)))
   \<and> calculatePhaseShift (-100) = rad2deg (- pi - arcsin (-2 - (-100) / 100))
   \<and> calculatePhaseShift (-100) = -90
   \<and> calculatePhaseShift 0 = rad2deg (arcsin (0 / 100))
   \<and> calculatePhaseShift 0 = 0
   \<and> calculatePhaseShift 100 = rad2deg (arcsin (100 / 100))
   \<and> calculatePhaseShift 100 = 90
   \<and> calculatePhaseShift 150 = rad2deg (pi - arcsin (2 - 150 / 100))
   \<and> calculatePhaseShift 150 = 150
   \<and> calculatePhaseShift (-150) = rad2deg (- pi - arcsin (-2 - (-150) / 100))
   \<and> calculatePhaseShift (-150) = -150"
proof -
  have b1: "-100 < ampcont \<and> ampcont \<le> 100 \<longrightarrow>
      calculatePhaseShift ampcont = rad2deg (arcsin (ampcont / 100))"
    by (simp add: calculatePhaseShift_def)
  have b2: "ampcont > 100 \<longrightarrow>
      calculatePhaseShift ampcont = rad2deg (pi - arcsin (2 - ampcont / 100))"
    by (simp add: calculatePhaseShift_def)
  have b3: "ampcont \<le> -100 \<longrightarrow>
      calculatePhaseShift ampcont = rad2deg (- pi - arcsin (-2 - ampcont / 100))"
    by (simp add: calculatePhaseShift_def)
  have v1: "calculatePhaseShift (-100) = rad2deg (- pi - arcsin (-2 - (-100) / 100))"
    by (simp add: calculatePhaseShift_def)
  have w1: "calculatePhaseShift (-100) = -90"
    by (simp add: calculatePhaseShift_def rad2deg_def)
  have v2: "calculatePhaseShift 0 = rad2deg (arcsin (0 / 100))"
    by (simp add: calculatePhaseShift_def)
  have w2: "calculatePhaseShift 0 = 0"
    by (simp add: calculatePhaseShift_def rad2deg_def)
  have v3: "calculatePhaseShift 100 = rad2deg (arcsin (100 / 100))"
    by (simp add: calculatePhaseShift_def)
  have w3: "calculatePhaseShift 100 = 90"
    by (simp add: calculatePhaseShift_def rad2deg_def)
  have v4: "calculatePhaseShift 150 = rad2deg (pi - arcsin (2 - 150 / 100))"
    by (simp add: calculatePhaseShift_def)
  have "(2::real) - 150 / 100 = 1 / 2"
    by simp
  then have w4: "calculatePhaseShift 150 = 150"
    by (simp add: calculatePhaseShift_def rad2deg_def arcsin_half)
  have v5: "calculatePhaseShift (-150) = rad2deg (- pi - arcsin (-2 - (-150) / 100))"
    by (simp add: calculatePhaseShift_def)
  have "(-2::real) - (-150) / 100 = - (1 / 2)"
    by simp
  then have w5: "calculatePhaseShift (-150) = -150"
    by (simp add: calculatePhaseShift_def rad2deg_def arcsin_minus_half)
  from b1 b2 b3 v1 w1 v2 w2 v3 w3 v4 w4 v5 w5 show ?thesis
    by blast
qed

theorem calculatePhaseShift_branches_witness:
  "(-100 < (50::real) \<and> (50::real) \<le> 100)
   \<and> calculatePhaseShift 50 = rad2deg (arcsin (50 / 100))
   \<and> (250::real) > 100
   \<and> calculatePhaseShift 250 = rad2deg (pi - arcsin (2 - 250 / 100))
   \<and> (-250::real) \<le> -100
   \<and> calculatePhaseShift (-250) = rad2deg (- pi - arcsin (-2 - (-250) / 100))"
  using calculatePhaseShift_branches [of 50] calculatePhaseShift_branches [of 250]
    calculatePhaseShift_branches [of "-250"]
  by simp

subsection \<open>Reading a CTF model\<close>

lemma and_then_Inr: "and_then (Inr x) f = f x"
  by (simp add: and_then_def)

lemma and_then_Inl: "and_then (Inl e) f = Inl e"
  by (simp add: and_then_def)

lemma floatField_truthy:
  assumes "floatField pf keyPos key = Inr r"
  shows "truthy keyPos"
proof (cases keyPos)
  case (JDict kvs)
  with assms have "map_of kvs key \<noteq> None"
    by (auto simp: floatField_def and_then_def split: option.splits)
  then have "kvs \<noteq> []" by auto
  with JDict show ?thesis by simp
qed (use assms in \<open>simp_all add: floatField_def and_then_Inl\<close>)

lemma selectKeyPos_found:
  assumes "(map_of kvs ''ctf_frame'' = Some v \<and> getindex v 1 = Inr keyPos)
     \<or> (''ctf_frame'' \<notin> fst ` set kvs \<and> map_of kvs ''ctf'' = Some v
         \<and> getindex v 0 = Inr keyPos)"
  shows "selectKeyPos (JDict kvs) ctfModel = Inr (keyPos, ctfModel)"
  using assms
proof
  assume a: "map_of kvs ''ctf_frame'' = Some v \<and> getindex v 1 = Inr keyPos"
  then have "''ctf_frame'' \<in> fst ` set kvs"
    by (metis map_of_SomeD fst_conv image_eqI)
  with a show ?thesis
    by (simp add: selectKeyPos_def and_then_Inr)
next
  assume a: "''ctf_frame'' \<notin> fst ` set kvs \<and> map_of kvs ''ctf'' = Some v
    \<and> getindex v 0 = Inr keyPos"
  then have "''ctf'' \<in> fst ` set kvs"
    by (metis map_of_SomeD fst_conv image_eqI)
  with a show ?thesis
    by (simp add: selectKeyPos_def and_then_Inr)
qed

lemma selectKeyPos_absent:
  assumes "contains jsonDict ''ctf_frame'' = Inr False"
    and "contains jsonDict ''ctf'' = Inr False"
  shows "selectKeyPos jsonDict ctfModel = Inr (JNull, setWrongDefocus ctfModel)"
  using assms by (simp add: selectKeyPos_def and_then_Inr)

text \<open>
  A record that is chosen but false as a condition (\<open>None\<close>, an empty dict) skips the
  defocus lines: the model keeps what \<open>selectKeyPos\<close> left and gets the phase shift 0.
\<close>

lemma readCTFModel_falsy_keyPos:
  assumes "loadJson fs filename = Inr jsonDict"
    and "selectKeyPos jsonDict ctfModel = Inr (keyPos, ctfModel1)"
    and "\<not> truthy keyPos"
  shows "readCTFModel std pf rx fs ctfModel filename = Inr (ctfModel1\<lparr>phaseShift := Some 0\<rparr>)"
  using assms by (simp add: readCTFModel_def and_then_Inr)

text \<open>
  C4, as stated, fails. The document \<open>{"ctf": [null]}\<close> holds no usable CTF record:
  \<open>keyPos\<close> is \<open>None\<close>. Reading it does not fail, but the defocus triple is not
  set to (-999, -1, -999): \<open>setWrongDefocus\<close> is called only when both keys are absent,
  and the model keeps the triple it had.
\<close>

theorem readCTFModel_null_record_counterexample:
  "selectKeyPos (JDict [(''ctf'', JList [JNull])]) emptyCtfModel = Inr (JNull, emptyCtfModel)
   \<and> readCTFModel storeDefocus (\<lambda>s. None) (\<lambda>s. s)
        [''mic_info.json'' \<mapsto> Inr (JDict [(''ctf'', JList [JNull])])]
        emptyCtfModel ''mic_info.json''
      = Inr (emptyCtfModel\<lparr>phaseShift := Some 0\<rparr>)
   \<and> defocusTriple (emptyCtfModel\<lparr>phaseShift := Some 0\<rparr>) = (None, None, None)
   \<and> defocusTriple (emptyCtfModel\<lparr>phaseShift := Some 0\<rparr>)
      \<noteq> (Some (-999), Some (-1), Some (-999))"
  by (simp add: readCTFModel_def loadJson_def selectKeyPos_def and_then_def
      emptyCtfModel_def defocusTriple_def)

text \<open>
  C4, amended. When the loaded CTF metadata document has neither a \<open>ctf_frame\<close> nor a
  \<open>ctf\<close> key, reading the CTF model does not fail: it returns the model with the
  defocus triple set to exactly (-999, -1, -999) and the phase shift 0.
\<close>

theorem readCTFModel_missing_keys:
  assumes "loadJson fs filename = Inr jsonDict"
    and "contains jsonDict ''ctf_frame'' = Inr False"
    and "contains jsonDict ''ctf'' = Inr False"
  shows "readCTFModel std pf rx fs ctfModel filename
           = Inr ((setWrongDefocus ctfModel)\<lparr>phaseShift := Some 0\<rparr>)
       \<and> defocusTriple ((setWrongDefocus ctfModel)\<lparr>phaseShift := Some 0\<rparr>)
           = (Some (-999), Some (-1), Some (-999))"
  using assms
  by (simp add: readCTFModel_def selectKeyPos_absent and_then_Inr defocusTriple_def
      setWrongDefocus_def)

theorem readCTFModel_missing_keys_witness:
  "loadJson [''mic_info.json'' \<mapsto> Inr (JDict [(''boxes'', JList [])])] ''mic_info.json''
     = Inr (JDict [(''boxes'', JList [])])
   \<and> contains (JDict [(''boxes'', JList [])]) ''ctf_frame'' = Inr False
   \<and> contains (JDict [(''boxes'', JList [])]) ''ctf'' = Inr False
   \<and> readCTFModel storeDefocus (\<lambda>s. None) (\<lambda>s. s)
        [''mic_info.json'' \<mapsto> Inr (JDict [(''boxes'', JList [])])]
        emptyCtfModel ''mic_info.json''
      = Inr \<lparr>defocusU = Some (-999), defocusV = Some (-1), defocusAngle = Some (-999),
             phaseShift = Some 0, psdFile = None\<rparr>"
  using readCTFModel_missing_keys [of "[''mic_info.json'' \<mapsto> Inr (JDict [(''boxes'', JList [])])]"
      "''mic_info.json''" "JDict [(''boxes'', JList [])]" storeDefocus "\<lambda>s. None" "\<lambda>s. s"
      emptyCtfModel]
  by (simp add: loadJson_def setWrongDefocus_def emptyCtfModel_def)

text \<open>
  C5. When the chosen CTF record gives the floats \<open>defocus\<close>, \<open>dfang\<close>,
  \<open>dfdiff\<close> and \<open>ampcont\<close>, the model's defocus is set through
  \<open>setStandardDefocus\<close> with \<open>defocusU = 10000 * defocus + 5000 * dfdiff\<close>,
  \<open>defocusV = 20000 * defocus - defocusU\<close> and the angle \<open>dfang\<close> as read; with
  \<open>defocus = 1.0\<close> and \<open>dfdiff = 0.2\<close> these are 11000 and 9000.
\<close>

theorem readCTFModel_defocus:
  assumes "loadJson fs filename = Inr (JDict kvs)"
    and "(map_of kvs ''ctf_frame'' = Some v \<and> getindex v 1 = Inr keyPos)
     \<or> (''ctf_frame'' \<notin> fst ` set kvs \<and> map_of kvs ''ctf'' = Some v
         \<and> getindex v 0 = Inr keyPos)"
    and "floatField pf keyPos ''defocus'' = Inr defocus"
    and "floatField pf keyPos ''dfang'' = Inr dfang"
    and "floatField pf keyPos ''dfdiff'' = Inr dfdiff"
    and "floatField pf keyPos ''ampcont'' = Inr ampcont"
  shows "readCTFModel std pf rx fs ctfModel filename
           = Inr ((setPsdFileIfExists rx fs filename (''ctf_im2d'' \<in> fst ` set kvs)
                    (std (10000 * defocus + 5000 * dfdiff)
                         (20000 * defocus - (10000 * defocus + 5000 * dfdiff)) dfang ctfModel))
                  \<lparr>phaseShift := Some (calculatePhaseShift ampcont)\<rparr>)
       \<and> (defocus = 1 \<and> dfdiff = 2 / 10 \<longrightarrow>
           readCTFModel std pf rx fs ctfModel filename
           = Inr ((setPsdFileIfExists rx fs filename (''ctf_im2d'' \<in> fst ` set kvs)
                    (std 11000 9000 dfang ctfModel))
                  \<lparr>phaseShift := Some (calculatePhaseShift ampcont)\<rparr>))"
proof -
  have sel: "selectKeyPos (JDict kvs) ctfModel = Inr (keyPos, ctfModel)"
    by (rule selectKeyPos_found [OF assms(2)])
  have tr: "truthy keyPos"
    by (rule floatField_truthy [OF assms(3)])
  have main: "readCTFModel std pf rx fs ctfModel filename
           = Inr ((setPsdFileIfExists rx fs filename (''ctf_im2d'' \<in> fst ` set kvs)
                    (std (10000 * defocus + 5000 * dfdiff)
                         (20000 * defocus - (10000 * defocus + 5000 * dfdiff)) dfang ctfModel))
                  \<lparr>phaseShift := Some (calculatePhaseShift ampcont)\<rparr>)"
    unfolding readCTFModel_def
    by (simp only: assms(1,3-6) sel tr and_then_Inr Let_def contains.simps if_True prod.case)
  show ?thesis
  proof (intro conjI impI)
    show "readCTFModel std pf rx fs ctfModel filename
           = Inr ((setPsdFileIfExists rx fs filename (''ctf_im2d'' \<in> fst ` set kvs)
                    (std (10000 * defocus + 5000 * dfdiff)
                         (20000 * defocus - (10000 * defocus + 5000 * dfdiff)) dfang ctfModel))
                  \<lparr>phaseShift := Some (calculatePhaseShift ampcont)\<rparr>)"
      by (rule main)
  next
    assume ex: "defocus = 1 \<and> dfdiff = 2 / 10"
    then have d: "defocus = 1" and f: "dfdiff = 2 / 10"
      by blast+
    have u: "10000 * (1::real) + 5000 * (2 / 10) = 11000"
      by simp
    have v: "20000 * (1::real) - 11000 = 9000"
      by simp
    from main show "readCTFModel std pf rx fs ctfModel filename
           = Inr ((setPsdFileIfExists rx fs filename (''ctf_im2d'' \<in> fst ` set kvs)
                    (std 11000 9000 dfang ctfModel))
                  \<lparr>phaseShift := Some (calculatePhaseShift ampcont)\<rparr>)"
      unfolding d f u v .
  qed
qed

theorem readCTFModel_defocus_witness:
  "loadJson [''mic_info.json'' \<mapsto> Inr (JDict [(''ctf'', JList [ctfRecord])])] ''mic_info.json''
     = Inr (JDict [(''ctf'', JList [ctfRecord])])
   \<and> ''ctf_frame'' \<notin> fst ` set [(''ctf'', JList [ctfRecord])]
   \<and> map_of [(''ctf'', JList [ctfRecord])] ''ctf'' = Some (JList [ctfRecord])
   \<and> getindex (JList [ctfRecord]) 0 = Inr ctfRecord
   \<and> floatField (\<lambda>s. None) ctfRecord ''defocus'' = Inr 1
   \<and> floatField (\<lambda>s. None) ctfRecord ''dfang'' = Inr 30
   \<and> floatField (\<lambda>s. None) ctfRecord ''dfdiff'' = Inr (2 / 10)
   \<and> floatField (\<lambda>s. None) ctfRecord ''ampcont'' = Inr 10
   \<and> readCTFModel storeDefocus (\<lambda>s. None) (\<lambda>s. s)
        [''mic_info.json'' \<mapsto> Inr (JDict [(''ctf'', JList [ctfRecord])])]
        emptyCtfModel ''mic_info.json''
      = Inr \<lparr>defocusU = Some 11000, defocusV = Some 9000, defocusAngle = Some 30,
             phaseShift = Some (calculatePhaseShift 10), psdFile = None\<rparr>"
  using readCTFModel_defocus [of
      "[''mic_info.json'' \<mapsto> Inr (JDict [(''ctf'', JList [ctfRecord])])]" "''mic_info.json''"
      "[(''ctf'', JList [ctfRecord])]" "JList [ctfRecord]" ctfRecord "\<lambda>s. None" 1 30 "2 / 10" 10
      storeDefocus "\<lambda>s. s" emptyCtfModel]
  by (simp add: loadJson_def floatField_def and_then_def setPsdFileIfExists_def
      storeDefocus_def emptyCtfModel_def ctfRecord_def)

subsection \<open>Stack indices\<close>

text \<open>
  The loop from any state: when the current file's particles come first and the rest is
  grouped, the current file keeps the offset \<open>a\<close> and every other file gets the offset
  its first particle decides.
\<close>

lemma writeIndices_grouped:
  "grouped (fileName # map fst ps) \<Longrightarrow>
   writeIndices fileName a ps =
     map (\<lambda>(fn, idx). (fn, idx - (if fn = fileName then a
                                   else if map_of ps fn = Some 0 then 0 else 1))) ps"
proof (induction ps arbitrary: fileName a)
  case Nil
  then show ?case by simp
next
  case (Cons p ps)
  obtain fn idx where p: "p = (fn, idx)" by (cases p)
  show ?case
  proof (cases "fn = fileName")
    case True
    with Cons.prems p have g: "grouped (fileName # map fst ps)"
      by simp
    have "writeIndices fileName a ps =
      map (\<lambda>(f, i). (f, i - (if f = fileName then a
                                   else if map_of ps f = Some 0 then 0 else 1))) ps"
      by (rule Cons.IH [OF g])
    with True p show ?thesis
      by auto
  next
    case False
    with Cons.prems p have notin: "fileName \<notin> set (map fst ps)"
      and g: "grouped (fn # map fst ps)"
      by simp_all
    define a' :: int where "a' = (if idx = 0 then 0 else 1)"
    have ih: "writeIndices fn a' ps =
      map (\<lambda>(f, i). (f, i - (if f = fn then a'
                                   else if map_of ps f = Some 0 then 0 else 1))) ps"
      by (rule Cons.IH [OF g])
    have "map (\<lambda>(f, i). (f, i - (if f = fn then a'
                                   else if map_of ps f = Some 0 then 0 else 1))) ps
        = map (\<lambda>(f, i). (f, i - (if f = fileName then a
                                   else if map_of (p # ps) f = Some 0 then 0 else 1))) ps"
    proof (rule map_cong [OF refl])
      fix x assume x: "x \<in> set ps"
      obtain f i where fi: "x = (f, i)" by (cases x)
      with x notin have "f \<noteq> fileName" by force
      with fi p False show "(case x of (f, i) \<Rightarrow> (f, i - (if f = fn then a'
                                   else if map_of ps f = Some 0 then 0 else 1)))
        = (case x of (f, i) \<Rightarrow> (f, i - (if f = fileName then a
                                   else if map_of (p # ps) f = Some 0 then 0 else 1)))"
        by (simp add: a'_def)
    qed
    with ih False p show ?thesis
      by (auto simp: a'_def Let_def)
  qed
qed

text \<open>
  C3. For every sequence of particles grouped by source file, each file's indices are
  written with the offset its first particle decides: \<open>map_of ps fn\<close> is the index of
  the first particle of the file \<open>fn\<close>; when it is 0 every index of the file is written
  unchanged, and otherwise 1 is subtracted from every index of the file. Both
  \<open>writeSetOfParticles\<close> (on images that are not \<open>hdf\<close>) and \<open>convertReferences\<close>
  do so. A source file has a name: the first file's name is not the empty string, which is
  the loop's starting value for the current file.
\<close>

theorem index_normalization:
  assumes "grouped (map fst ps)"
    and "'''' \<notin> set (take 1 (map fst ps))"
    and "ext \<noteq> ''hdf''"
  shows "writeSetOfParticles ext ps
           = map (\<lambda>(fn, idx). (fn, if map_of ps fn = Some 0 then idx else idx - 1)) ps
       \<and> convertReferences ps
           = map (\<lambda>(fn, idx). (fn, if map_of ps fn = Some 0 then idx else idx - 1)) ps"
proof -
  have "writeIndices '''' 0 ps
      = map (\<lambda>(fn, idx). (fn, if map_of ps fn = Some 0 then idx else idx - 1)) ps"
  proof (cases ps)
    case Nil
    then show ?thesis by simp
  next
    case (Cons p rest)
    obtain fn idx where p: "p = (fn, idx)" by (cases p)
    from assms(2) Cons p have ne: "fn \<noteq> ''''" by auto
    from assms(1) Cons p have g: "grouped (fn # map fst rest)" by simp
    define a' :: int where "a' = (if idx = 0 then 0 else 1)"
    have "writeIndices fn a' rest = map (\<lambda>(f, i). (f, i - (if f = fn then a'
                                   else if map_of rest f = Some 0 then 0 else 1))) rest"
      by (rule writeIndices_grouped [OF g])
    also have "\<dots> = map (\<lambda>(f, i). (f, if map_of ps f = Some 0 then i else i - 1)) rest"
      using Cons p by (auto simp: a'_def)
    finally show ?thesis
      using Cons p ne by (auto simp: a'_def Let_def)
  qed
  with assms(3) show ?thesis
    by (simp add: writeSetOfParticles_def convertReferences_def)
qed

theorem index_normalization_witness:
  "grouped (map fst sampleParticles)
   \<and> '''' \<notin> set (take 1 (map fst sampleParticles))
   \<and> ''mrcs'' \<noteq> ''hdf''
   \<and> writeSetOfParticles ''mrcs'' sampleParticles
        = [(''a.mrcs'', 0), (''a.mrcs'', 1), (''b.mrc'', 0), (''c.mrcs'', 0), (''c.mrcs'', 2)]
   \<and> convertReferences sampleParticles
        = [(''a.mrcs'', 0), (''a.mrcs'', 1), (''b.mrc'', 0), (''c.mrcs'', 0), (''c.mrcs'', 2)]"
  using index_normalization [of sampleParticles "''mrcs''"]
  by (simp add: sampleParticles_def)

subsection \<open>Particle list files\<close>

declare decimal.simps [simp del]

lemma split_from_word:
  "list_all (\<lambda>c. \<not> is_space c) w \<Longrightarrow> split_from cur (w @ rest) = split_from (cur @ w) rest"
  by (induction w arbitrary: cur) auto

lemma is_digit_digit_char: "d < 10 \<Longrightarrow> is_digit (digit_char d)"
  by (simp add: is_digit_def digit_char_def)

lemma digit_val_digit_char: "d < 10 \<Longrightarrow> digit_val (digit_char d) = d"
  by (simp add: digit_val_def digit_char_def)

lemma int_digits_decimal:
  "int_digits acc prev (decimal n @ rest) = int_digits (acc * 10 ^ length (decimal n) + n) True rest"
proof (induction n arbitrary: acc prev rest rule: decimal.induct)
  case (1 n)
  show ?case
  proof (cases "n < 10")
    case True
    then show ?thesis
      by (simp add: decimal.simps [of n] is_digit_digit_char digit_val_digit_char mult.commute)
  next
    case False
    have d: "decimal n = decimal (n div 10) @ [digit_char (n mod 10)]"
      using False by (simp add: decimal.simps [of n])
    have "int_digits acc prev (decimal n @ rest)
        = int_digits acc prev (decimal (n div 10) @ (digit_char (n mod 10) # rest))"
      by (simp add: d)
    also have "\<dots> = int_digits (acc * 10 ^ length (decimal (n div 10)) + n div 10) True
        (digit_char (n mod 10) # rest)"
      by (rule "1.IH" [OF False])
    also have "\<dots> = int_digits (10 * (acc * 10 ^ length (decimal (n div 10)) + n div 10) + n mod 10)
        True rest"
      by (simp add: is_digit_digit_char digit_val_digit_char)
    also have "10 * (acc * 10 ^ length (decimal (n div 10)) + n div 10) + n mod 10
        = acc * 10 ^ length (decimal n) + n"
      by (simp add: d algebra_simps)
    finally show ?thesis .
  qed
qed

lemma decimal_chars: "c \<in> set (decimal n) \<Longrightarrow> is_digit c"
proof (induction n rule: decimal.induct)
  case (1 n)
  show ?case
  proof (cases "n < 10")
    case True
    with "1.prems" show ?thesis
      by (simp add: decimal.simps [of n] is_digit_digit_char)
  next
    case False
    with "1.prems" "1.IH" show ?thesis
      by (auto simp: decimal.simps [of n] is_digit_digit_char)
  qed
qed

lemma decimal_nonempty: "decimal n \<noteq> []"
  by (simp add: decimal.simps [of n])

lemma is_digit_not_space: "is_digit c \<Longrightarrow> \<not> is_space c"
  by (auto simp: is_digit_def is_space_def)

lemma is_digit_not_hash: "is_digit c \<Longrightarrow> c \<noteq> CHR ''#'' \<and> c \<noteq> CHR ''-'' \<and> c \<noteq> CHR ''+''"
  by (auto simp: is_digit_def)

lemma py_int_decimal: "py_int (decimal n) = Inr (int n)"
proof -
  obtain c ds where cd: "decimal n = c # ds"
    using decimal_nonempty [of n] by (cases "decimal n") auto
  then have "is_digit c"
    using decimal_chars [of c n] by simp
  then have c: "c \<noteq> CHR ''-'' \<and> c \<noteq> CHR ''+''"
    using is_digit_not_hash by blast
  have "int_digits 0 False (decimal n @ []) = int_digits (0 * 10 ^ length (decimal n) + n) True []"
    by (rule int_digits_decimal)
  then have "int_digits 0 False (decimal n) = Some n"
    by simp
  with cd c show ?thesis
    by (simp add: py_int_def)
qed

lemma py_split_entry:
  assumes "path \<noteq> []" and "list_all (\<lambda>c. \<not> is_space c) path"
  shows "py_split (decimal n @ '' '' @ path @ [CHR 0x0A]) = [decimal n, path]"
proof -
  have dn: "list_all (\<lambda>c. \<not> is_space c) (decimal n)"
    using decimal_chars is_digit_not_space by (auto simp: list_all_iff)
  have sp: "is_space CHR '' ''" "is_space (CHR 0x0A)"
    by (simp_all add: is_space_def)
  have "split_from [] (decimal n @ (CHR '' '' # path @ [CHR 0x0A]))
      = split_from ([] @ decimal n) (CHR '' '' # path @ [CHR 0x0A])"
    by (rule split_from_word [OF dn])
  also have "\<dots> = decimal n # split_from [] (path @ [CHR 0x0A])"
    using sp decimal_nonempty [of n] by simp
  also have "split_from [] (path @ [CHR 0x0A]) = split_from ([] @ path) [CHR 0x0A]"
    by (rule split_from_word [OF assms(2)])
  also have "\<dots> = [path]"
    using sp assms(1) by simp
  finally show ?thesis
    by (simp add: py_split_def)
qed

lemma iterLstFile_comment:
  "CHR ''#'' \<in> set line \<Longrightarrow> iterLstFile (line # f) = iterLstFile f"
  by simp

lemma iterLstFile_words:
  assumes "CHR ''#'' \<notin> set line" and "py_split line = w # path # ws" and "py_int w = Inr n"
  shows "iterLstFile (line # f) = ((n + 1, path) # fst (iterLstFile f), snd (iterLstFile f))"
  using assms by (simp add: word_at_def split: prod.splits)

lemma iterLstFile_entry:
  assumes "well_formed (Entry n path)"
  shows "iterLstFile (render_line (Entry n path) # f)
     = ((int n + 1, path) # fst (iterLstFile f), snd (iterLstFile f))"
proof -
  from assms have p: "path \<noteq> []" "CHR ''#'' \<notin> set path" "list_all (\<lambda>c. \<not> is_space c) path"
    by simp_all
  have "CHR ''#'' \<notin> set (decimal n)"
    using decimal_chars is_digit_not_hash by blast
  with p have h: "CHR ''#'' \<notin> set (render_line (Entry n path))"
    by simp
  have s: "py_split (render_line (Entry n path)) = decimal n # path # []"
    using py_split_entry [OF p(1) p(3)] by simp
  show ?thesis
    by (rule iterLstFile_words [OF h s py_int_decimal])
qed

text \<open>
  C7. Every line that holds the character \<open>#\<close> is skipped. Every other line whose
  first two words are \<open>N\<close>, read by \<open>int\<close>, and a path yields the pair
  \<open>(N + 1, path)\<close>, and the iteration goes on with the rest of the file. So a file of
  comment lines and of lines \<open><N> <path>\<close> yields, in order, exactly one pair
  \<open>(N + 1, path)\<close> for each line \<open><N> <path>\<close>, and ends without an error.
\<close>

theorem iterLstFile_file:
  "(CHR ''#'' \<in> set line \<longrightarrow> iterLstFile (line # f) = iterLstFile f)
   \<and> (CHR ''#'' \<notin> set line \<and> py_split line = w # path # ws \<and> py_int w = Inr k \<longrightarrow>
        iterLstFile (line # f) = ((k + 1, path) # fst (iterLstFile f), snd (iterLstFile f)))
   \<and> (list_all well_formed ls \<longrightarrow>
        iterLstFile (map render_line ls) = (concat (map exposed ls), None))"
proof (intro conjI impI)
  assume "CHR ''#'' \<in> set line"
  then show "iterLstFile (line # f) = iterLstFile f"
    by (rule iterLstFile_comment)
next
  assume "CHR ''#'' \<notin> set line \<and> py_split line = w # path # ws \<and> py_int w = Inr k"
  then show "iterLstFile (line # f) = ((k + 1, path) # fst (iterLstFile f), snd (iterLstFile f))"
    using iterLstFile_words by blast
next
  assume "list_all well_formed ls"
  then show "iterLstFile (map render_line ls) = (concat (map exposed ls), None)"
  proof (induction ls)
    case Nil
    then show ?case by simp
  next
    case (Cons l ls)
    then have ih: "iterLstFile (map render_line ls) = (concat (map exposed ls), None)"
      and wf: "well_formed l"
      by simp_all
    show ?case
    proof (cases l)
      case (Comment s)
      with wf ih show ?thesis
        using iterLstFile_comment [of s "map render_line ls"] by simp
    next
      case (Entry n path)
      with wf ih show ?thesis
        using iterLstFile_entry [of n path "map render_line ls"] by simp
    qed
  qed
qed

theorem iterLstFile_file_witness:
  "CHR ''#'' \<in> set (''#LSX'' @ [CHR 0x0A])
   \<and> iterLstFile [''#LSX'' @ [CHR 0x0A], ''7 a.hdf''] = iterLstFile [''7 a.hdf'']
   \<and> CHR ''#'' \<notin> set ''7 a.hdf''
   \<and> py_split ''7 a.hdf'' = [''7'', ''a.hdf'']
   \<and> py_int ''7'' = Inr 7
   \<and> iterLstFile [''7 a.hdf''] = ([(8, ''a.hdf'')], None)
   \<and> list_all well_formed sampleLst
   \<and> iterLstFile (map render_line sampleLst)
       = ([(1, ''particles/a.hdf''), (42, ''particles/b.hdf'')], None)"
  using iterLstFile_file [of "''#LSX'' @ [CHR 0x0A]" "[''7 a.hdf'']" "''7''" "''a.hdf''" "[]" 7 sampleLst]
    iterLstFile_file [of "''7 a.hdf''" "[]" "''7''" "''a.hdf''" "[]" 7 "[]"]
  by (simp add: sampleLst_def is_space_def py_split_def py_int_def is_digit_def digit_val_def)

subsection \<open>Particle parameters of the last iteration\<close>

lemma customParticleParams_omitted:
  assumes "zero_or_missing_entry vals"
  shows "customParticleParams vals = Inr None"
proof -
  from assms obtain kvs where v: "vals = JDict kvs"
    by (cases vals) auto
  from assms v have om: "object_or_missing (map_of kvs ''xform.align3d'')"
    and d: "zero_or_missing (map_of kvs ''coverage'')
         \<or> zero_or_missing (map_of kvs ''score'')
         \<or> missing_or_empty_matrix (map_of kvs ''xform.align3d'')"
    by simp_all
  from om obtain xform where x: "dict_get vals ''xform.align3d'' (JDict []) = Inr (JDict xform)"
    and xm: "map_of kvs ''xform.align3d'' = None \<and> xform = []
           \<or> map_of kvs ''xform.align3d'' = Some (JDict xform)"
    by (cases "map_of kvs ''xform.align3d''" rule: object_or_missing.cases) (auto simp: v)
  have m: "dict_get (JDict xform) ''matrix'' JNull
        = Inr (case map_of xform ''matrix'' of None \<Rightarrow> JNull | Some w \<Rightarrow> w)"
    by simp
  from d have "\<not> (truthy (case map_of kvs ''coverage'' of None \<Rightarrow> JNull | Some w \<Rightarrow> w)
      \<and> truthy (case map_of kvs ''score'' of None \<Rightarrow> JNull | Some w \<Rightarrow> w)
      \<and> truthy (case map_of xform ''matrix'' of None \<Rightarrow> JNull | Some w \<Rightarrow> w))"
    using xm by (auto simp: zero_or_missing_def)
  then show ?thesis
    unfolding customParticleParams_def
    by (simp add: v and_then_Inr x [unfolded v] del: dict_get.simps)
       (simp add: and_then_Inr)
qed

lemma collectParams_omitted:
  assumes "zero_or_missing_entry vals"
  shows "collectParams (items1 @ (key, vals) # items2) out = collectParams (items1 @ items2) out"
proof (induction items1 arbitrary: out)
  case Nil
  show ?case
    by (simp add: customParticleParams_omitted [OF assms] split: option.splits)
next
  case (Cons kv items1)
  obtain k v where kv: "kv = (k, v)" by (cases kv)
  show ?case
  proof (cases "matchIndex k")
    case None
    then show ?thesis by (simp add: kv Cons.IH)
  next
    case (Some particleIndex)
    show ?thesis
    proof (cases "customParticleParams v")
      case (Inl e)
      with Some show ?thesis by (simp add: kv)
    next
      case (Inr r)
      with Some show ?thesis by (cases r) (simp_all add: kv Cons.IH fun_upd_def)
    qed
  qed
qed

lemma collectParams_other:
  "collectParams items out = Inr m \<Longrightarrow> \<forall>k \<in> fst ` set items. matchIndex k \<noteq> Some i \<Longrightarrow>
   m i = out i"
proof (induction items arbitrary: out)
  case Nil
  then show ?case by simp
next
  case (Cons kv items)
  obtain k v where kv: "kv = (k, v)" by (cases kv)
  from Cons.prems(2) kv have k: "matchIndex k \<noteq> Some i"
    and rest: "\<forall>k \<in> fst ` set items. matchIndex k \<noteq> Some i"
    by simp_all
  show ?case
  proof (cases "matchIndex k")
    case None
    with Cons.prems(1) kv have "collectParams items out = Inr m" by simp
    then show ?thesis by (rule Cons.IH [OF _ rest])
  next
    case (Some j)
    with k have ji: "j \<noteq> i" by simp
    show ?thesis
    proof (cases "customParticleParams v")
      case (Inl e)
      with Some Cons.prems(1) kv show ?thesis by simp
    next
      case (Inr r)
      show ?thesis
      proof (cases r)
        case None
        with Inr Some Cons.prems(1) kv have "collectParams items out = Inr m" by simp
        then show ?thesis by (rule Cons.IH [OF _ rest])
      next
        case (Some params)
        with Inr \<open>matchIndex k = Some j\<close> Cons.prems(1) kv
        have "collectParams items (out(j \<mapsto> params)) = Inr m" by simp
        then have "m i = (out(j \<mapsto> params)) i" by (rule Cons.IH [OF _ rest])
        with ji show ?thesis by simp
      qed
    qed
  qed
qed

text \<open>
  C10. An entry whose \<open>coverage\<close> or \<open>score\<close> is 0, 0.0 or missing, or whose
  \<open>xform.align3d\<close> matrix is missing or empty, is left out without an error: the
  function returns what it returns for the file without that entry, and nothing when it is
  the only entry; when no other key of the file gives its particle index, the index is not
  in the returned mapping. The test is on the truth value, so a coverage or a score that is
  the number zero is dropped as a missing one is.
\<close>

theorem getLastParticlesParams_omits:
  assumes "particleParamsPaths \<noteq> []"
    and "loadJson fs (last (sort particleParamsPaths))
           = Inr (JDict (items1 @ (key, vals) # items2))"
    and "zero_or_missing_entry vals"
  shows "getLastParticlesParams fs particleParamsPaths
           = getLastParticlesParams
               (fs(last (sort particleParamsPaths) \<mapsto> Inr (JDict (items1 @ items2))))
               particleParamsPaths
       \<and> (items1 = [] \<and> items2 = [] \<longrightarrow>
             getLastParticlesParams fs particleParamsPaths = Inr Map.empty)
       \<and> (getLastParticlesParams fs particleParamsPaths = Inr m
           \<and> matchIndex key = Some i
           \<and> (\<forall>k \<in> fst ` set (items1 @ items2). matchIndex k \<noteq> Some i)
           \<longrightarrow> m i = None)"
proof -
  have r: "getLastParticlesParams fs particleParamsPaths
      = collectParams (items1 @ items2) Map.empty"
    using assms(1,2)
    by (simp add: getLastParticlesParams_def and_then_Inr collectParams_omitted [OF assms(3)])
  have r': "getLastParticlesParams
               (fs(last (sort particleParamsPaths) \<mapsto> Inr (JDict (items1 @ items2))))
               particleParamsPaths
      = collectParams (items1 @ items2) Map.empty"
    using assms(1) by (simp add: getLastParticlesParams_def loadJson_def and_then_Inr)
  show ?thesis
  proof (intro conjI impI)
    show "getLastParticlesParams fs particleParamsPaths
           = getLastParticlesParams
               (fs(last (sort particleParamsPaths) \<mapsto> Inr (JDict (items1 @ items2))))
               particleParamsPaths"
      by (simp only: r r')
  next
    assume "items1 = [] \<and> items2 = []"
    with r show "getLastParticlesParams fs particleParamsPaths = Inr Map.empty"
      by simp
  next
    assume a: "getLastParticlesParams fs particleParamsPaths = Inr m
           \<and> matchIndex key = Some i
           \<and> (\<forall>k \<in> fst ` set (items1 @ items2). matchIndex k \<noteq> Some i)"
    with r have c: "collectParams (items1 @ items2) Map.empty = Inr m"
      by simp
    from a have n: "\<forall>k \<in> fst ` set (items1 @ items2). matchIndex k \<noteq> Some i"
      by blast
    have "m i = Map.empty i"
      by (rule collectParams_other [OF c n])
    then show "m i = None"
      by simp
  qed
qed

theorem getLastParticlesParams_omits_witness:
  "[''out/particle_parms_02.json'', ''out/particle_parms_01.json''] \<noteq> []
   \<and> last (sort [''out/particle_parms_02.json'', ''out/particle_parms_01.json''])
       = ''out/particle_parms_02.json''
   \<and> zero_or_missing_entry zeroScoreEntry
   \<and> matchIndex ''('p.hdf', 1)'' = Some 1
   \<and> getLastParticlesParams paramsFiles
        [''out/particle_parms_02.json'', ''out/particle_parms_01.json'']
      = Inr [0 \<mapsto> \<lparr>coverage = JFloat 1, score = JFloat 2,
                     alignMatrix = JList [JFloat 1, JFloat 0, JFloat 0]\<rparr>]"
proof -
  have s: "last (sort [''out/particle_parms_02.json'', ''out/particle_parms_01.json''])
       = ''out/particle_parms_02.json''"
    by simp
  have z: "zero_or_missing_entry zeroScoreEntry"
    by (simp add: zeroScoreEntry_def zero_or_missing_def)
  have l: "loadJson paramsFiles
      (last (sort [''out/particle_parms_02.json'', ''out/particle_parms_01.json'']))
     = Inr (JDict ([(''('p.hdf', 0)'', alignedEntry)] @ (''('p.hdf', 1)'', zeroScoreEntry) # []))"
    by (simp only: s) (simp add: loadJson_def paramsFiles_def)
  have m0: "matchIndex ''('p.hdf', 0)'' = Some 0"
    by (simp add: matchIndex_def is_digit_def dec_val_def digit_val_def)
  have m1: "matchIndex ''('p.hdf', 1)'' = Some 1"
    by (simp add: matchIndex_def is_digit_def dec_val_def digit_val_def)
  have c: "customParticleParams alignedEntry
      = Inr (Some \<lparr>coverage = JFloat 1, score = JFloat 2,
                     alignMatrix = JList [JFloat 1, JFloat 0, JFloat 0]\<rparr>)"
    by (simp add: customParticleParams_def alignedEntry_def and_then_def)
  have "getLastParticlesParams paramsFiles
        [''out/particle_parms_02.json'', ''out/particle_parms_01.json'']
      = getLastParticlesParams
          (paramsFiles(last (sort [''out/particle_parms_02.json'', ''out/particle_parms_01.json''])
             \<mapsto> Inr (JDict ([(''('p.hdf', 0)'', alignedEntry)] @ []))))
          [''out/particle_parms_02.json'', ''out/particle_parms_01.json'']"
    using getLastParticlesParams_omits [OF _ l z] by blast
  also have "\<dots> = Inr [0 \<mapsto> \<lparr>coverage = JFloat 1, score = JFloat 2,
                     alignMatrix = JList [JFloat 1, JFloat 0, JFloat 0]\<rparr>]"
    by (simp only: s) (simp add: getLastParticlesParams_def loadJson_def and_then_def m0 c)
  finally show ?thesis
    using s z m1 by simp
qed

subsection \<open>Converting the images of a 2D refinement\<close>

lemma perform_no_link:
  "\<forall>a \<in> set acts. \<not> is_link a \<Longrightarrow> \<forall>a \<in> set (fst (perform run acts)). \<not> is_link a"
  by (induction acts) (auto split: option.splits prod.splits)

lemma perform_ok:
  "\<forall>a. run a = None \<Longrightarrow> perform run acts = (acts, None)"
  by (induction acts) auto

text \<open>
  C9. When input bispectra are used and the size of the bispectra set differs from the
  size of the input particle set, the step ends with an exception and has begun no link of
  a bispectra file or of the list file, whatever the earlier calls do; when the earlier
  calls succeed the exception is the one with the message
  \<open>Input particles and bispectra sets have different size!\<close>.
\<close>

theorem convertImagesStep_size_mismatch:
  assumes "useInputBispec self"
    and "inputBispec self = Some prot"
    and "outputParticles_flip_bispec prot = Some bispecSize"
    and "bispecSize \<noteq> partSetSize self"
  shows "(\<forall>a \<in> set (fst (snd (convertImagesStep run linkName partBispecSet self))). \<not> is_link a)
       \<and> snd (snd (convertImagesStep run linkName partBispecSet self)) \<noteq> None
       \<and> ((\<forall>a. run a = None) \<longrightarrow>
            snd (snd (convertImagesStep run linkName partBispecSet self))
              = Some (Exception ''Input particles and bispectra sets have different size!''))"
proof -
  define pre where
    "pre = [MakePath ''particles'', WriteSetOfParticles, RunJob ''e2buildsets.py'']"
  obtain done1 e1 where p: "perform run pre = (done1, e1)"
    by (cases "perform run pre")
  have nl: "\<forall>a \<in> set done1. \<not> is_link a"
    using perform_no_link [of pre run] p by (simp add: pre_def)
  have r: "convertImagesStep run linkName partBispecSet self
      = (self\<lparr>skipctf := True\<rparr>, done1,
         case e1 of Some e \<Rightarrow> Some e
         | None \<Rightarrow> Some (Exception ''Input particles and bispectra sets have different size!''))"
    using assms p [unfolded pre_def]
    by (simp add: convertImagesStep_def split: option.splits del: perform.simps)
  have ok: "(\<forall>a. run a = None) \<longrightarrow> e1 = None"
    using perform_ok [of run pre] p by auto
  from r nl ok show ?thesis
    by (auto split: option.splits)
qed

theorem convertImagesStep_size_mismatch_witness:
  "useInputBispec mismatchedProtocol
   \<and> (90 :: nat) \<noteq> partSetSize mismatchedProtocol
   \<and> convertImagesStep (\<lambda>a. None) (\<lambda>fn. fn) ''sets/inputSet.lst__ctf_flip_bispec.lst''
        mismatchedProtocol
      = (mismatchedProtocol\<lparr>skipctf := True\<rparr>,
         [MakePath ''particles'', WriteSetOfParticles, RunJob ''e2buildsets.py''],
         Some (Exception ''Input particles and bispectra sets have different size!''))"
  using convertImagesStep_size_mismatch [of mismatchedProtocol
      "\<lparr>outputParticles_flip_bispec = Some 90,
        bispecFiles = [''particles/mic1__ctf_flip_bispec.hdf''],
        partSetFlipBispec = ''sets/inputSet__ctf_flip_bispec.lst''\<rparr>" 90
      "\<lambda>a. None" "\<lambda>fn. fn" "''sets/inputSet.lst__ctf_flip_bispec.lst''"]
  by (simp add: mismatchedProtocol_def convertImagesStep_def)

subsection \<open>Reading 2D boxes\<close>





subsection \<open>Geometry of a transformation matrix\<close>

lemma radAngles_of_angles:
  "map uminus (map deg2rad (map uminus (map rad2deg as))) = as"
  by (induction as) (simp_all add: deg2rad_def rad2deg_def)

lemma neg_take_neg: "map uminus (take n (map uminus (v :: real list))) = take n v"
  by (simp add: take_map comp_def)

text \<open>
  C6, as stated, fails in its last clause. A quarter turn about z with the translation
  (1, 0, 0) has the inverse \<open>quarterTurnBack\<close>, whose translation is (0, 1, 0): under
  the flag the returned shifts are (0, -1, 0), not the translation (1, 0, 0) of the matrix
  as given.
\<close>

theorem geometryFromMatrix_shifts_counterexample:
  "matrixProduct quarterTurn quarterTurnBack
     = [[1, 0, 0, 0], [0, 1, 0, 0], [0, 0, 1, 0], [0, 0, 0, 1]]
   \<and> rigidInverse quarterTurn = Inr quarterTurnBack
   \<and> lastColumn quarterTurn = [1, 0, 0]
   \<and> geometryFromMatrix rigidInverse lastColumn quarterTurnAngles quarterTurn True
       = Inr ([0, -1, 0], [90, 0, 0])
   \<and> [0, -1, 0] \<noteq> lastColumn quarterTurn"
  by (simp add: matrixProduct_def quarterTurn_def quarterTurnBack_def rigidInverse_def
      lastColumn_def quarterTurnAngles_def geometryFromMatrix_def and_then_def rad2deg_def)

text \<open>
  C6, amended. Without the inverse flag the returned shifts are the translation of the
  matrix as given; with it the matrix is inverted first and the returned shifts are the
  negated translation of the inverted matrix (an inversion that raises ends the call). In
  both cases the returned angles are the \<open>szyz\<close> Euler angles of the matrix used, the
  inverted one under the flag, each negated and converted from radians to degrees.
\<close>

theorem geometryFromMatrix_flag:
  "geometryFromMatrix linalg_inv tfm efm matrix False
     = Inr (tfm matrix, map (\<lambda>a. - rad2deg a) (efm matrix ''szyz''))
   \<and> (linalg_inv matrix = Inr matrix1 \<longrightarrow>
        geometryFromMatrix linalg_inv tfm efm matrix True
          = Inr (map uminus (tfm matrix1), map (\<lambda>a. - rad2deg a) (efm matrix1 ''szyz'')))
   \<and> (linalg_inv matrix = Inl e \<longrightarrow>
        geometryFromMatrix linalg_inv tfm efm matrix True = Inl e)"
proof (intro conjI impI)
  show "geometryFromMatrix linalg_inv tfm efm matrix False
     = Inr (tfm matrix, map (\<lambda>a. - rad2deg a) (efm matrix ''szyz''))"
    by (simp add: geometryFromMatrix_def and_then_Inr comp_def)
next
  assume "linalg_inv matrix = Inr matrix1"
  then show "geometryFromMatrix linalg_inv tfm efm matrix True
          = Inr (map uminus (tfm matrix1), map (\<lambda>a. - rad2deg a) (efm matrix1 ''szyz''))"
    by (simp add: geometryFromMatrix_def and_then_Inr comp_def)
next
  assume "linalg_inv matrix = Inl e"
  then show "geometryFromMatrix linalg_inv tfm efm matrix True = Inl e"
    by (simp add: geometryFromMatrix_def and_then_Inl)
qed

theorem geometryFromMatrix_flag_witness:
  "rigidInverse quarterTurn = Inr quarterTurnBack
   \<and> geometryFromMatrix rigidInverse lastColumn quarterTurnAngles quarterTurn True
       = Inr ([0, -1, 0], [90, 0, 0])
   \<and> geometryFromMatrix rigidInverse lastColumn quarterTurnAngles quarterTurn False
       = Inr ([1, 0, 0], [-90, 0, 0])
   \<and> geometryFromMatrix (\<lambda>m. Inl LinAlgError) lastColumn quarterTurnAngles
        [[0, 0, 0, 0], [0, 0, 0, 0], [0, 0, 0, 0], [0, 0, 0, 0]] True
       = Inl LinAlgError"
  using geometryFromMatrix_flag [of rigidInverse lastColumn quarterTurnAngles quarterTurn
      quarterTurnBack]
    geometryFromMatrix_flag [of "\<lambda>m. Inl LinAlgError" lastColumn quarterTurnAngles
      "[[0, 0, 0, 0], [0, 0, 0, 0], [0, 0, 0, 0], [0, 0, 0, 0]]" _ LinAlgError]
  by (simp add: quarterTurn_def quarterTurnBack_def rigidInverse_def lastColumn_def
      quarterTurnAngles_def rad2deg_def)

text \<open>
  C1. Floats are read as reals, so the tolerance is zero. Let \<open>M\<close> be a matrix on which
  the libraries keep their contract for a rigid transformation: under the flag \<open>M\<close> has
  an inverse \<open>M1\<close> whose inverse is \<open>M\<close> again, and without it \<open>M1\<close> is \<open>M\<close>; the
  \<open>szyz\<close> Euler angles of \<open>M1\<close> are three, and their Euler matrix, once the
  translation of \<open>M1\<close> is assigned to it, is \<open>M1\<close>. Then the shifts and angles that
  \<open>geometryFromMatrix\<close> returns for \<open>M\<close>, given to \<open>matrixFromGeometry\<close> with the
  same flag, give \<open>M\<close> back, for either value of the flag.
\<close>

theorem matrixFromGeometry_roundtrip:
  assumes "if inverseTransform then linalg_inv M = Inr M1 \<and> linalg_inv M1 = Inr M else M1 = M"
    and "efm M1 ''szyz'' = [a0, a1, a2]"
    and "set_translation (euler_matrix a0 a1 a2 ''szyz'') (take 3 (tfm M1)) = Inr M1"
  shows "and_then (geometryFromMatrix linalg_inv tfm efm M inverseTransform)
           (\<lambda>(shifts, angles).
              matrixFromGeometry euler_matrix set_translation linalg_inv shifts angles
                inverseTransform)
         = Inr M"
proof (cases inverseTransform)
  case True
  with assms(1) have inv1: "linalg_inv M = Inr M1" and inv2: "linalg_inv M1 = Inr M"
    by simp_all
  have g: "geometryFromMatrix linalg_inv tfm efm M True
      = Inr (map uminus (tfm M1), map uminus (map rad2deg [a0, a1, a2]))"
    using inv1 assms(2) by (simp add: geometryFromMatrix_def and_then_Inr)
  have ra: "map uminus (map deg2rad (map uminus (map rad2deg [a0, a1, a2]))) = [a0, a1, a2]"
    by (rule radAngles_of_angles)
  have "matrixFromGeometry euler_matrix set_translation linalg_inv (map uminus (tfm M1))
      (map uminus (map rad2deg [a0, a1, a2])) True
      = and_then (set_translation (euler_matrix a0 a1 a2 ''szyz'')
          (map uminus (take 3 (map uminus (tfm M1))))) linalg_inv"
    unfolding matrixFromGeometry_def ra Let_def
    by (simp add: item_at_def and_then_Inr)
  also have "\<dots> = Inr M"
    by (simp only: neg_take_neg assms(3) and_then_Inr inv2)
  finally show ?thesis
    using True g by (simp add: and_then_Inr)
next
  case False
  with assms(1) have m: "M1 = M"
    by simp
  have g: "geometryFromMatrix linalg_inv tfm efm M False
      = Inr (tfm M, map uminus (map rad2deg [a0, a1, a2]))"
    using assms(2) m by (simp add: geometryFromMatrix_def and_then_Inr)
  have ra: "map uminus (map deg2rad (map uminus (map rad2deg [a0, a1, a2]))) = [a0, a1, a2]"
    by (rule radAngles_of_angles)
  have "matrixFromGeometry euler_matrix set_translation linalg_inv (tfm M)
      (map uminus (map rad2deg [a0, a1, a2])) False
      = set_translation (euler_matrix a0 a1 a2 ''szyz'') (take 3 (tfm M))"
    unfolding matrixFromGeometry_def ra Let_def
    by (simp add: item_at_def and_then_Inr)
  also have "\<dots> = Inr M"
    using assms(3) m by simp
  finally show ?thesis
    using False g by (simp add: and_then_Inr)
qed

theorem matrixFromGeometry_roundtrip_witness:
  "rigidInverse quarterTurn = Inr quarterTurnBack
   \<and> rigidInverse quarterTurnBack = Inr quarterTurn
   \<and> quarterTurnAngles quarterTurnBack ''szyz'' = [- (pi / 2), 0, 0]
   \<and> setLastColumn (zTurnMatrix (- (pi / 2)) 0 0 ''szyz'') (take 3 (lastColumn quarterTurnBack))
       = Inr quarterTurnBack
   \<and> and_then (geometryFromMatrix rigidInverse lastColumn quarterTurnAngles quarterTurn True)
        (\<lambda>(shifts, angles).
           matrixFromGeometry zTurnMatrix setLastColumn rigidInverse shifts angles True)
       = Inr quarterTurn
   \<and> quarterTurnAngles quarterTurn ''szyz'' = [pi / 2, 0, 0]
   \<and> setLastColumn (zTurnMatrix (pi / 2) 0 0 ''szyz'') (take 3 (lastColumn quarterTurn))
       = Inr quarterTurn
   \<and> and_then (geometryFromMatrix rigidInverse lastColumn quarterTurnAngles quarterTurn False)
        (\<lambda>(shifts, angles).
           matrixFromGeometry zTurnMatrix setLastColumn rigidInverse shifts angles False)
       = Inr quarterTurn"
proof -
  have i1: "rigidInverse quarterTurn = Inr quarterTurnBack"
    by (simp add: rigidInverse_def quarterTurn_def quarterTurnBack_def)
  have i2: "rigidInverse quarterTurnBack = Inr quarterTurn"
    by (simp add: rigidInverse_def quarterTurn_def quarterTurnBack_def)
  have e1: "quarterTurnAngles quarterTurnBack ''szyz'' = [- (pi / 2), 0, 0]"
    by (simp add: quarterTurnAngles_def quarterTurnBack_def)
  have s1: "setLastColumn (zTurnMatrix (- (pi / 2)) 0 0 ''szyz'')
      (take 3 (lastColumn quarterTurnBack)) = Inr quarterTurnBack"
    by (simp add: setLastColumn_def zTurnMatrix_def lastColumn_def quarterTurnBack_def)
  have e2: "quarterTurnAngles quarterTurn ''szyz'' = [pi / 2, 0, 0]"
    by (simp add: quarterTurnAngles_def quarterTurn_def)
  have s2: "setLastColumn (zTurnMatrix (pi / 2) 0 0 ''szyz'') (take 3 (lastColumn quarterTurn))
      = Inr quarterTurn"
    by (simp add: setLastColumn_def zTurnMatrix_def lastColumn_def quarterTurn_def)
  have r1: "and_then (geometryFromMatrix rigidInverse lastColumn quarterTurnAngles quarterTurn True)
        (\<lambda>(shifts, angles).
           matrixFromGeometry zTurnMatrix setLastColumn rigidInverse shifts angles True)
       = Inr quarterTurn"
    using matrixFromGeometry_roundtrip [where inverseTransform = True
        and linalg_inv = rigidInverse and M = quarterTurn and ?M1.0 = quarterTurnBack
        and efm = quarterTurnAngles and ?a0.0 = "- (pi / 2)" and ?a1.0 = 0 and ?a2.0 = 0
        and set_translation = setLastColumn and euler_matrix = zTurnMatrix
        and tfm = lastColumn] i1 i2 e1 s1
    by simp
  have r2: "and_then (geometryFromMatrix rigidInverse lastColumn quarterTurnAngles quarterTurn False)
        (\<lambda>(shifts, angles).
           matrixFromGeometry zTurnMatrix setLastColumn rigidInverse shifts angles False)
       = Inr quarterTurn"
    using matrixFromGeometry_roundtrip [where inverseTransform = False
        and linalg_inv = rigidInverse and M = quarterTurn and ?M1.0 = quarterTurn
        and efm = quarterTurnAngles and ?a0.0 = "pi / 2" and ?a1.0 = 0 and ?a2.0 = 0
        and set_translation = setLastColumn and euler_matrix = zTurnMatrix
        and tfm = lastColumn] e2 s2
    by simp
  from i1 i2 e1 s1 r1 e2 s2 r2 show ?thesis
    by simp
qed

end
